theory Spec2Isabelle
  imports Complex_Main "HOL-Library.Word"
begin

section \<open>Single-precision values\<close>

text \<open>
  The program computes with \<^verbatim>\<open>float\<close>. A float value is modelled as the real number it
  denotes (every reading is an \<^verbatim>\<open>int32_t\<close> divided by 58, so neither NaN nor an infinity
  occurs). Each operation of the source that rounds its exact result (float subtraction,
  multiplication and division, the conversion of an \<^verbatim>\<open>int\<close> to \<^verbatim>\<open>float\<close>, and a decimal
  literal with no exact binary value such as \<^verbatim>\<open>0.9f\<close>) passes that result through a rounding
  function \<open>rnd\<close>, which is a parameter of every function that does arithmetic. The
  literals 0, 1.0f, 5.0f, 15.0f, 20, 35.0f and 58.0f are exact in single precision and are
  written as they are.

  The theorems assume of \<open>rnd\<close> only what \<open>rounding\<close> says: it is monotone, it leaves
  the integers of magnitude up to \<open>2^24\<close> unchanged, and on magnitudes between \<open>2^-100\<close>
  and \<open>2^100\<close> its relative error is at most \<open>2^-24\<close>. IEEE round-to-nearest in single
  precision has the three properties; so has the identity, which is exact arithmetic.
\<close>

definition rounding :: "(real \<Rightarrow> real) \<Rightarrow> bool" where
  "rounding rnd \<longleftrightarrow>
     mono rnd
     \<and> (\<forall>n::int. \<bar>n\<bar> \<le> 16777216 \<longrightarrow> rnd (real_of_int n) = real_of_int n)
     \<and> (\<forall>x. 1 / 2 ^ 100 \<le> \<bar>x\<bar> \<and> \<bar>x\<bar> \<le> 2 ^ 100 \<longrightarrow> \<bar>rnd x - x\<bar> \<le> \<bar>x\<bar> / 16777216)"

text \<open>The conversion \<^verbatim>\<open>int(x)\<close> of a float to an \<^verbatim>\<open>int\<close> truncates towards zero.\<close>

definition to_int :: "real \<Rightarrow> int" where
  "to_int x = (if 0 \<le> x then \<lfloor>x\<rfloor> else \<lceil>x\<rceil>)"

text \<open>
  One rounding in particular, for a concrete run of the decision: it takes the reals above
  5 that lie at most \<open>2^-22\<close> above it to 5, and is exact everywhere else. Single-precision
  round-to-nearest-even does the same to these reals: between 4 and 8 its values are
  \<open>2^-21\<close> apart, so they are at most half a step above 5, and 5 is the even neighbour.
\<close>

definition round_near_5 :: "real \<Rightarrow> real" where
  "round_near_5 x = (if 5 < x \<and> x \<le> 5 + 1 / 4194304 then 5 else x)"

section \<open>Motor control functions\<close>

text \<open>
  The four global \<^verbatim>\<open>PwmOut\<close> objects (\<open>aIn1\<close>, \<open>aIn2\<close>: right-hand motor; \<open>bIn1\<close>, \<open>bIn2\<close>:
  left-hand motor). The state of the actuator is the pulse width, in microseconds, that
  each of them was last given; \<^verbatim>\<open>main\<close> sets the period of all four to 20 microseconds.
\<close>

datatype PwmOut = aIn1 | aIn2 | bIn1 | bIn2

type_synonym pwm = "PwmOut \<Rightarrow> int"

definition period_us :: int where
  "period_us = 20"

text \<open>\<^verbatim>\<open>ch.pulsewidth_us(w)\<close>: one statement, one channel written.\<close>

definition pulsewidth_us :: "pwm \<Rightarrow> PwmOut \<times> int \<Rightarrow> pwm" where
  "pulsewidth_us p cw = p(fst cw := snd cw)"

text \<open>
  Each motor function is the sequence of its four \<^verbatim>\<open>pulsewidth_us\<close> statements, in the order
  of the source (the \<^verbatim>\<open>printf\<close> that follows them writes no channel).
\<close>

definition forward :: "(real \<Rightarrow> real) \<Rightarrow> real \<Rightarrow> real \<Rightarrow> (PwmOut \<times> int) list" where
  "forward rnd l_duty_cycle r_duty_cycle =
     [(aIn1, to_int (rnd (20 * r_duty_cycle))),
      (aIn2, 0),
      (bIn1, to_int (rnd (20 * l_duty_cycle))),
      (bIn2, 0)]"

definition backward :: "(real \<Rightarrow> real) \<Rightarrow> real \<Rightarrow> real \<Rightarrow> (PwmOut \<times> int) list" where
  "backward rnd l_duty_cycle r_duty_cycle =
     [(aIn1, 0),
      (aIn2, to_int (rnd (20 * r_duty_cycle))),
      (bIn1, 0),
      (bIn2, to_int (rnd (20 * l_duty_cycle)))]"

definition stop :: "(PwmOut \<times> int) list" where
  "stop = [(aIn1, 0), (aIn2, 0), (bIn1, 0), (bIn2, 0)]"

definition turnRight :: "(real \<Rightarrow> real) \<Rightarrow> real \<Rightarrow> real \<Rightarrow> (PwmOut \<times> int) list" where
  "turnRight rnd l_duty_cycle r_duty_cycle =
     [(aIn1, 0),
      (aIn2, to_int (rnd (20 * r_duty_cycle))),
      (bIn1, to_int (rnd (20 * l_duty_cycle))),
      (bIn2, 0)]"

definition turnLeft :: "(real \<Rightarrow> real) \<Rightarrow> real \<Rightarrow> real \<Rightarrow> (PwmOut \<times> int) list" where
  "turnLeft rnd l_duty_cycle r_duty_cycle =
     [(aIn1, to_int (rnd (20 * r_duty_cycle))),
      (aIn2, 0),
      (bIn1, 0),
      (bIn2, to_int (rnd (20 * l_duty_cycle)))]"

text \<open>The channel values once all statements have run, and after each statement in turn.\<close>

definition run_writes :: "pwm \<Rightarrow> (PwmOut \<times> int) list \<Rightarrow> pwm" where
  "run_writes p ws = foldl pulsewidth_us p ws"

fun states_during :: "pwm \<Rightarrow> (PwmOut \<times> int) list \<Rightarrow> pwm list" where
  "states_during p [] = []"
| "states_during p (w # ws) = pulsewidth_us p w # states_during (pulsewidth_us p w) ws"

text \<open>A call of a motor function with its arguments, as \<^verbatim>\<open>main\<close> issues it.\<close>

datatype motor_call =
    Forward real real
  | Backward real real
  | Stop
  | TurnRight real real
  | TurnLeft real real

fun render :: "(real \<Rightarrow> real) \<Rightarrow> motor_call \<Rightarrow> (PwmOut \<times> int) list" where
  "render rnd (Forward l r) = forward rnd l r"
| "render rnd (Backward l r) = backward rnd l r"
| "render rnd Stop = stop"
| "render rnd (TurnRight l r) = turnRight rnd l r"
| "render rnd (TurnLeft l r) = turnLeft rnd l r"

text \<open>The duty-cycle arguments of a call lie in \<open>[0, 1]\<close>.\<close>

fun duty_ok :: "motor_call \<Rightarrow> bool" where
  "duty_ok (Forward l r) = (0 \<le> l \<and> l \<le> 1 \<and> 0 \<le> r \<and> r \<le> 1)"
| "duty_ok (Backward l r) = (0 \<le> l \<and> l \<le> 1 \<and> 0 \<le> r \<and> r \<le> 1)"
| "duty_ok Stop = True"
| "duty_ok (TurnRight l r) = (0 \<le> l \<and> l \<le> 1 \<and> 0 \<le> r \<and> r \<le> 1)"
| "duty_ok (TurnLeft l r) = (0 \<le> l \<and> l \<le> 1 \<and> 0 \<le> r \<and> r \<le> 1)"

text \<open>Each wheel's pair of channels has at most one nonzero pulse width.\<close>

definition pair_exclusive :: "pwm \<Rightarrow> bool" where
  "pair_exclusive p \<longleftrightarrow> (p aIn1 = 0 \<or> p aIn2 = 0) \<and> (p bIn1 = 0 \<or> p bIn2 = 0)"

definition width_ok :: "PwmOut \<times> int \<Rightarrow> bool" where
  "width_ok cw \<longleftrightarrow> 0 \<le> snd cw \<and> snd cw \<le> period_us"

section \<open>The decision of the control loop\<close>

text \<open>
  The \<^verbatim>\<open>if\<close> cascade of the loop in \<^verbatim>\<open>main\<close> (``multi level turning''), as the motor
  function it calls for the three readings. \<^verbatim>\<open>leftDist-rightDist\<close> is a float subtraction.
\<close>

definition multi_level_turning :: "(real \<Rightarrow> real) \<Rightarrow> real \<Rightarrow> real \<Rightarrow> real \<Rightarrow> motor_call" where
  "multi_level_turning rnd frontDist leftDist rightDist =
     (if frontDist < 35 then Backward (rnd (9 / 10)) (rnd (9 / 10))
      else if rnd (leftDist - rightDist) > 5 then
        (if rightDist < 15 then TurnLeft 1 1 else TurnLeft (rnd (7 / 10)) 1)
      else if rnd (rightDist - leftDist) > 5 then
        (if leftDist < 15 then TurnRight 1 1 else TurnRight 1 (rnd (7 / 10)))
      else Forward 1 1)"

section \<open>The library classes behind the sonar\<close>

text \<open>
  Modelled from the spec: the elapsed-time counter of a sensor (\<^verbatim>\<open>Timer\<close> of \<^verbatim>\<open>mbed.h\<close>, which
  the source includes and does not contain). It counts microseconds while it runs:
  \<open>t_time\<close> is the time accumulated over earlier runs, \<open>t_start\<close> the clock value at which
  the current run began, \<open>t_running\<close> the spec's \<open>captureRunning\<close>. Every operation takes
  the clock value \<open>now\<close> (microseconds) at which it executes. \<^verbatim>\<open>read_us\<close> returns an \<^verbatim>\<open>int\<close>,
  and the source stores it in an \<^verbatim>\<open>int32_t\<close>: the reading is the low 32 bits of the elapsed
  time.
\<close>

record Timer =
  t_running :: bool
  t_start :: int
  t_time :: int

definition Timer_new :: "int \<Rightarrow> Timer" where
  "Timer_new now = \<lparr>t_running = False, t_start = now, t_time = 0\<rparr>"

definition Timer_reset :: "Timer \<Rightarrow> int \<Rightarrow> Timer" where
  "Timer_reset tm now = tm\<lparr>t_start := now, t_time := 0\<rparr>"

definition Timer_start :: "Timer \<Rightarrow> int \<Rightarrow> Timer" where
  "Timer_start tm now =
     (if t_running tm then tm else tm\<lparr>t_start := now, t_running := True\<rparr>)"

definition slicetime :: "Timer \<Rightarrow> int \<Rightarrow> int" where
  "slicetime tm now = (if t_running tm then now - t_start tm else 0)"

definition Timer_stop :: "Timer \<Rightarrow> int \<Rightarrow> Timer" where
  "Timer_stop tm now = tm\<lparr>t_time := t_time tm + slicetime tm now, t_running := False\<rparr>"

definition Timer_read_us :: "Timer \<Rightarrow> int \<Rightarrow> 32 word" where
  "Timer_read_us tm now = word_of_int (t_time tm + slicetime tm now)"

section \<open>The Sonar class\<close>

text \<open>
  The fields of \<^verbatim>\<open>class Sonar\<close>. \<open>begin_us\<close> and \<open>end_us\<close> are the source's \<^verbatim>\<open>begin\<close> and
  \<^verbatim>\<open>end\<close>. \<open>trigger\<close> is the level of the trigger line.

  Modelled from the spec: the two schedules (\<^verbatim>\<open>Timeout\<close> and \<^verbatim>\<open>Ticker\<close> of \<^verbatim>\<open>mbed.h\<close>).
  \<open>timeout\<close> is the clock value at which the pending one-shot callback is due, if one is
  pending; the only callback the source attaches to it is \<^verbatim>\<open>trigger_toggle\<close>. \<open>ticker\<close> is
  the clock value at which the periodic callback is next due together with its period, if
  it is attached; the only callback the source attaches to it is \<^verbatim>\<open>background_read\<close>.
  The echo handlers are attached to the echo line for the whole life of the object.
\<close>

record Sonar =
  trigger :: bool
  timer :: Timer
  timeout :: "int option"
  ticker :: "(int \<times> int) option"
  begin_us :: "32 word"
  end_us :: "32 word"
  distance :: real

text \<open>
  The constructor. The three sensors are global objects, so \<^verbatim>\<open>begin\<close> and \<^verbatim>\<open>end\<close>, which the
  constructor does not set, are zero.
\<close>

definition Sonar_Sonar :: "int \<Rightarrow> Sonar" where
  "Sonar_Sonar now =
     \<lparr>trigger = False, timer = Timer_new now, timeout = None, ticker = None,
      begin_us = 0, end_us = 0, distance = - 1\<rparr>"

text \<open>
  \<^verbatim>\<open>start\<close>: \<^verbatim>\<open>ticker.attach(..., 0.02f)\<close>, a period of 0.02 seconds, which is 20000
  microseconds; the first call is due one period after the attachment.
\<close>

definition Sonar_start :: "Sonar \<Rightarrow> int \<Rightarrow> Sonar" where
  "Sonar_start s now = s\<lparr>ticker := Some (now + 20000, 20000)\<rparr>"

definition Sonar_stop :: "Sonar \<Rightarrow> Sonar" where
  "Sonar_stop s = s\<lparr>ticker := None\<rparr>"

definition echo_in :: "Sonar \<Rightarrow> int \<Rightarrow> Sonar" where
  "echo_in s now =
     (let tm = Timer_start (Timer_reset (timer s) now) now
      in s\<lparr>timer := tm, begin_us := Timer_read_us tm now\<rparr>)"

text \<open>
  \<^verbatim>\<open>distance = end - begin\<close>: a subtraction of two \<^verbatim>\<open>int32_t\<close> (wrapping is written out by the
  word subtraction), read as a signed number and converted to \<^verbatim>\<open>float\<close>.
\<close>

definition echo_fall :: "(real \<Rightarrow> real) \<Rightarrow> Sonar \<Rightarrow> int \<Rightarrow> Sonar" where
  "echo_fall rnd s now =
     (let e = Timer_read_us (timer s) now
      in s\<lparr>end_us := e, timer := Timer_stop (timer s) now,
           distance := rnd (real_of_int (sint (e - begin_us s)))\<rparr>)"

definition trigger_toggle :: "Sonar \<Rightarrow> Sonar" where
  "trigger_toggle s = s\<lparr>trigger := False\<rparr>"

text \<open>\<^verbatim>\<open>timeout.attach(..., 10.0e-6)\<close>: due 10 microseconds after the call.\<close>

definition background_read :: "Sonar \<Rightarrow> int \<Rightarrow> Sonar" where
  "background_read s now = s\<lparr>trigger := True, timeout := Some (now + 10)\<rparr>"

definition Sonar_read :: "(real \<Rightarrow> real) \<Rightarrow> Sonar \<Rightarrow> real" where
  "Sonar_read rnd s = rnd (distance s / 58)"

section \<open>Scheduled callbacks and the events of a sensor\<close>

text \<open>
  Modelled from the spec: how the library runs the two schedules. A callback runs at the
  clock value at which it is due, the earlier one first (the one-shot one when both are
  due at the same clock value). The one-shot schedule is cleared before its callback runs;
  the periodic one is re-armed one period later before its callback runs. A periodic
  schedule whose period is not positive is never due; the source attaches none.
  \<open>run_until s t\<close> runs every callback that is due up to the clock value \<open>t\<close>.
\<close>

definition timeout_due :: "Sonar \<Rightarrow> int \<Rightarrow> bool" where
  "timeout_due s t = (case timeout s of None \<Rightarrow> False | Some d \<Rightarrow> d \<le> t)"

definition ticker_due :: "Sonar \<Rightarrow> int \<Rightarrow> bool" where
  "ticker_due s t = (case ticker s of None \<Rightarrow> False | Some (d, p) \<Rightarrow> d \<le> t \<and> 0 < p)"

definition ticker_first :: "Sonar \<Rightarrow> bool" where
  "ticker_first s =
     (case timeout s of None \<Rightarrow> True
      | Some d \<Rightarrow> (case ticker s of None \<Rightarrow> False | Some (d', p) \<Rightarrow> d' < d))"

definition fire_timeout :: "Sonar \<Rightarrow> Sonar" where
  "fire_timeout s = trigger_toggle (s\<lparr>timeout := None\<rparr>)"

definition fire_ticker :: "Sonar \<Rightarrow> Sonar" where
  "fire_ticker s =
     (case ticker s of None \<Rightarrow> s
      | Some (d, p) \<Rightarrow> background_read (s\<lparr>ticker := Some (d + p, p)\<rparr>) d)"

text \<open>
  A bound on the number of callbacks that are still to run up to the clock value \<open>t\<close>;
  it decreases with every callback run, so that \<open>run_until\<close> terminates.
\<close>

definition pending_work :: "Sonar \<Rightarrow> int \<Rightarrow> nat" where
  "pending_work s t =
     (case ticker s of None \<Rightarrow> 0
      | Some (d, p) \<Rightarrow> if d \<le> t \<and> 0 < p then 2 * nat ((t - d) div p + 1) else 0)
     + (if timeout_due s t then 1 else 0)"

function run_until :: "Sonar \<Rightarrow> int \<Rightarrow> Sonar" where
  "run_until s t =
     (if ticker_due s t \<and> ticker_first s then run_until (fire_ticker s) t
      else if timeout_due s t then run_until (fire_timeout s) t
      else if ticker_due s t then run_until (fire_ticker s) t
      else s)"
  by pat_completeness auto
termination run_until
proof -
  have div_step: "(t - (d + p)) div p = (t - d) div p - 1" if "0 < p" for t d p :: int
  proof -
    have "(p + (t - (d + p))) div p = (t - (d + p)) div p + 1"
      using that div_add_self1 [of p "t - (d + p)"] by simp
    then show ?thesis by simp
  qed
  have tick: "pending_work (fire_ticker s) t < pending_work s t"
    if "ticker_due s t" and "ticker_first s \<or> \<not> timeout_due s t" for s t
  proof -
    from that(1) obtain d p where tk: "ticker s = Some (d, p)" "d \<le> t" "0 < p"
      by (auto simp: ticker_due_def split: option.splits)
    have ge: "0 \<le> (t - d) div p"
      using tk(2,3) by (simp add: pos_imp_zdiv_nonneg_iff)
    have old: "2 * nat ((t - d) div p + 1) \<le> pending_work s t"
      using tk by (simp add: pending_work_def)
    have new: "pending_work (fire_ticker s) t \<le> 2 * nat ((t - d) div p) + 1"
      using tk ge
      by (simp add: pending_work_def fire_ticker_def background_read_def timeout_due_def
          div_step)
    have "2 * nat ((t - d) div p) + 1 < 2 * nat ((t - d) div p + 1)"
      using ge by simp
    with old new show ?thesis by simp
  qed
  have shot: "pending_work (fire_timeout s) t < pending_work s t" if "timeout_due s t" for s t
    using that
    by (simp add: pending_work_def fire_timeout_def trigger_toggle_def timeout_due_def)
  show ?thesis
    by (relation "measure (\<lambda>(s, t). pending_work s t)") (auto simp: tick shot)
qed

text \<open>
  What happens to one sensor, in the order in which it happens: a call of \<^verbatim>\<open>start\<close> or
  \<^verbatim>\<open>stop\<close>, a rising or falling edge of the echo line, or the passing of some microseconds,
  during which the scheduled callbacks run. The state is the clock together with the
  object.
\<close>

datatype event = Call_start | Call_stop | Echo_rise | Echo_fall | Elapse nat

primrec apply_event :: "(real \<Rightarrow> real) \<Rightarrow> int \<times> Sonar \<Rightarrow> event \<Rightarrow> int \<times> Sonar" where
  "apply_event rnd w Call_start = (fst w, Sonar_start (snd w) (fst w))"
| "apply_event rnd w Call_stop = (fst w, Sonar_stop (snd w))"
| "apply_event rnd w Echo_rise = (fst w, echo_in (snd w) (fst w))"
| "apply_event rnd w Echo_fall = (fst w, echo_fall rnd (snd w) (fst w))"
| "apply_event rnd w (Elapse d) = (fst w + int d, run_until (snd w) (fst w + int d))"

definition run_events :: "(real \<Rightarrow> real) \<Rightarrow> int \<times> Sonar \<Rightarrow> event list \<Rightarrow> int \<times> Sonar" where
  "run_events rnd w evs = foldl (apply_event rnd) w evs"

text \<open>The microseconds that pass during a list of events.\<close>

fun waited :: "event list \<Rightarrow> nat" where
  "waited [] = 0"
| "waited (Elapse d # evs) = d + waited evs"
| "waited (e # evs) = waited evs"

text \<open>
  A list of events holds a completed measurement cycle when a falling edge comes after a
  rising edge; \<open>risen\<close> says whether a rising edge came before the list.
\<close>

fun cycle_done :: "bool \<Rightarrow> event list \<Rightarrow> bool" where
  "cycle_done risen [] = False"
| "cycle_done risen (Echo_rise # evs) = cycle_done True evs"
| "cycle_done risen (Echo_fall # evs) = (risen \<or> cycle_done risen evs)"
| "cycle_done risen (e # evs) = cycle_done risen evs"

section \<open>One iteration of the control loop\<close>

text \<open>
  The body of \<^verbatim>\<open>while(1)\<close> in \<^verbatim>\<open>main\<close>: read the three sensors, decide, and run the motor
  function decided on (the \<^verbatim>\<open>printf\<close> calls change nothing).
\<close>

definition main_loop ::
    "(real \<Rightarrow> real) \<Rightarrow> Sonar \<Rightarrow> Sonar \<Rightarrow> Sonar \<Rightarrow> motor_call" where
  "main_loop rnd sonarFront sonarLeft sonarRight =
     multi_level_turning rnd (Sonar_read rnd sonarFront) (Sonar_read rnd sonarLeft)
       (Sonar_read rnd sonarRight)"

section \<open>Properties of the state of a sensor\<close>

text \<open>No scheduled one-shot callback is overdue at the clock value \<open>c\<close>.\<close>

definition timeout_ahead :: "int \<Rightarrow> Sonar \<Rightarrow> bool" where
  "timeout_ahead c s = (case timeout s of None \<Rightarrow> True | Some d \<Rightarrow> c < d)"

text \<open>
  If the trigger line is high, the callback that clears it is scheduled, and is due at
  the clock value \<open>b\<close> at the latest.
\<close>

definition pulse_clears_by :: "int \<Rightarrow> Sonar \<Rightarrow> bool" where
  "pulse_clears_by b s =
     (if trigger s then (case timeout s of None \<Rightarrow> False | Some d \<Rightarrow> d \<le> b) else True)"

text \<open>
  The part of the state that the echo handlers read, as it is until the first rising
  edge: the counter has never run, and the distance is the -1 of the constructor or the 0
  that a falling edge computes from it.
\<close>

definition never_risen :: "Sonar \<Rightarrow> bool" where
  "never_risen s \<longleftrightarrow>
     \<not> t_running (timer s) \<and> t_time (timer s) = 0 \<and> begin_us s = 0
     \<and> (distance s = - 1 \<or> distance s = 0)"

section \<open>Facts about rounding\<close>

lemma rounding_id: "rounding id"
  by (simp add: rounding_def mono_def)

lemma rounding_mono: "rounding rnd \<Longrightarrow> x \<le> y \<Longrightarrow> rnd x \<le> rnd y"
  by (simp add: rounding_def mono_def)

lemma rounding_int:
  assumes "rounding rnd" and "\<bar>n\<bar> \<le> 16777216"
  shows "rnd (real_of_int n) = real_of_int n"
  using assms by (simp add: rounding_def)

lemma rounding_error:
  assumes "rounding rnd" and "1 / 2 ^ 100 \<le> \<bar>x\<bar>" and "\<bar>x\<bar> \<le> 2 ^ 100"
  shows "\<bar>rnd x - x\<bar> \<le> \<bar>x\<bar> / 16777216"
  using assms by (simp add: rounding_def)

lemma rounding_0: "rounding rnd \<Longrightarrow> rnd 0 = 0"
  using rounding_int [of rnd 0] by simp

lemma rounding_1: "rounding rnd \<Longrightarrow> rnd 1 = 1"
  using rounding_int [of rnd 1] by simp

lemma rounding_5: "rounding rnd \<Longrightarrow> rnd 5 = 5"
  using rounding_int [of rnd 5] by simp

lemma rounding_20: "rounding rnd \<Longrightarrow> rnd 20 = 20"
  using rounding_int [of rnd 20] by simp

lemma rounding_unit:
  assumes "rounding rnd" and "0 \<le> x" and "x \<le> 1"
  shows "0 \<le> rnd x \<and> rnd x \<le> 1"
  using rounding_mono [OF assms(1) assms(2)] rounding_mono [OF assms(1) assms(3)]
    rounding_0 [OF assms(1)] rounding_1 [OF assms(1)]
  by simp

lemma to_int_width:
  assumes "rounding rnd" and "0 \<le> d" and "d \<le> 1"
  shows "0 \<le> to_int (rnd (20 * d)) \<and> to_int (rnd (20 * d)) \<le> 20"
proof -
  have lo: "0 \<le> rnd (20 * d)"
    using rounding_mono [OF assms(1), of 0 "20 * d"] rounding_0 [OF assms(1)] assms(2) by simp
  have hi: "rnd (20 * d) \<le> 20"
    using rounding_mono [OF assms(1), of "20 * d" 20] rounding_20 [OF assms(1)] assms(3) by simp
  from lo hi show ?thesis
    by (simp add: to_int_def floor_le_iff)
qed

lemma rounding_gt_5:
  assumes "rounding rnd" and "rnd x > 5"
  shows "x > 5"
proof (rule ccontr)
  assume "\<not> x > 5"
  then have "rnd x \<le> rnd 5"
    using rounding_mono [OF assms(1), of x 5] by simp
  with assms show False
    by (simp add: rounding_5)
qed

lemma rounding_le_5:
  assumes "rounding rnd" and "x \<le> 5"
  shows "\<not> rnd x > 5"
  using rounding_mono [OF assms(1) assms(2)] rounding_5 [OF assms(1)] by simp

lemma rounding_gt_5_margin:
  assumes "rounding rnd" and "5 + 5 / 8388608 < x"
  shows "rnd x > 5"
proof (cases "x \<le> 6")
  case True
  have "\<bar>rnd x - x\<bar> \<le> \<bar>x\<bar> / 16777216"
    using assms(2) True by (intro rounding_error [OF assms(1)]) simp_all
  then show ?thesis
    using assms(2) by linarith
next
  case False
  then have "rnd 6 \<le> rnd x"
    by (intro rounding_mono [OF assms(1)]) simp
  moreover have "rnd 6 = 6"
    using rounding_int [OF assms(1), of 6] by simp
  ultimately show ?thesis by simp
qed

lemma rounding_round_near_5: "rounding round_near_5"
proof -
  have "mono round_near_5"
    by (auto simp: mono_def round_near_5_def)
  moreover have "round_near_5 (real_of_int n) = real_of_int n" for n
  proof -
    have "\<not> (5 < real_of_int n \<and> real_of_int n \<le> 5 + 1 / 4194304)"
    proof
      assume a: "5 < real_of_int n \<and> real_of_int n \<le> 5 + 1 / 4194304"
      then have "5 < n" by linarith
      then have "6 \<le> real_of_int n" by linarith
      with a show False by linarith
    qed
    then show ?thesis by (simp add: round_near_5_def)
  qed
  moreover have "\<bar>round_near_5 x - x\<bar> \<le> \<bar>x\<bar> / 16777216" for x
    by (simp add: round_near_5_def)
  ultimately show ?thesis
    by (simp add: rounding_def)
qed

section \<open>The decision rules\<close>

text \<open>
  Claim C1. Whatever the left and right readings are, a front reading below 35 makes the
  control loop call \<^verbatim>\<open>backward(0.9f, 0.9f)\<close>: the command is Backward, and both duty cycles
  are the single-precision value of 0.9.
\<close>

theorem front_stop_backward:
  assumes "frontDist < 35"
  shows "multi_level_turning rnd frontDist leftDist rightDist
           = Backward (rnd (9 / 10)) (rnd (9 / 10))"
  using assms by (simp add: multi_level_turning_def)

theorem front_stop_backward_witness:
  "(10::real) < 35 \<and> multi_level_turning id 10 50 50 = Backward (9 / 10) (9 / 10)"
  using front_stop_backward [of 10 id 50 50] by simp

text \<open>
  Claim C2, as amended. With a front reading of at least 35: when the single-precision
  difference left - right that the program computes exceeds 5, the command is a left turn,
  with both duty cycles 1.0 when right is below 15 and with the left duty cycle reduced to
  0.7 otherwise; when the single-precision difference right - left exceeds 5, the command
  is a right turn, with both duty cycles 1.0 when left is below 15 and with the right duty
  cycle reduced to 0.7 otherwise. The computed difference exceeds 5 whenever the exact one
  exceeds \<open>5 * (1 + 2^-23)\<close>.
\<close>

theorem lateral_turns:
  assumes "rounding rnd" and "35 \<le> frontDist"
  shows "(rnd (leftDist - rightDist) > 5 \<longrightarrow>
           multi_level_turning rnd frontDist leftDist rightDist
             = (if rightDist < 15 then TurnLeft 1 1 else TurnLeft (rnd (7 / 10)) 1))
       \<and> (rnd (rightDist - leftDist) > 5 \<longrightarrow>
           multi_level_turning rnd frontDist leftDist rightDist
             = (if leftDist < 15 then TurnRight 1 1 else TurnRight 1 (rnd (7 / 10))))
       \<and> (5 + 5 / 8388608 < leftDist - rightDist \<longrightarrow>
           multi_level_turning rnd frontDist leftDist rightDist
             = (if rightDist < 15 then TurnLeft 1 1 else TurnLeft (rnd (7 / 10)) 1))
       \<and> (5 + 5 / 8388608 < rightDist - leftDist \<longrightarrow>
           multi_level_turning rnd frontDist leftDist rightDist
             = (if leftDist < 15 then TurnRight 1 1 else TurnRight 1 (rnd (7 / 10))))"
proof -
  have left: "multi_level_turning rnd frontDist leftDist rightDist
      = (if rightDist < 15 then TurnLeft 1 1 else TurnLeft (rnd (7 / 10)) 1)"
    if "rnd (leftDist - rightDist) > 5"
    using that assms(2) by (simp add: multi_level_turning_def)
  have right: "multi_level_turning rnd frontDist leftDist rightDist
      = (if leftDist < 15 then TurnRight 1 1 else TurnRight 1 (rnd (7 / 10)))"
    if r: "rnd (rightDist - leftDist) > 5"
  proof -
    from r have "rightDist - leftDist > 5"
      by (rule rounding_gt_5 [OF assms(1)])
    then have "leftDist - rightDist \<le> 5"
      by simp
    then have "\<not> rnd (leftDist - rightDist) > 5"
      by (rule rounding_le_5 [OF assms(1)])
    with assms(2) r show ?thesis
      by (simp add: multi_level_turning_def)
  qed
  show ?thesis
    using left right rounding_gt_5_margin [OF assms(1), of "leftDist - rightDist"]
      rounding_gt_5_margin [OF assms(1), of "rightDist - leftDist"]
    by blast
qed

theorem lateral_turns_witness:
  "rounding id \<and> (35::real) \<le> 100
   \<and> multi_level_turning id 100 40 10 = TurnLeft 1 1
   \<and> multi_level_turning id 100 40 25 = TurnLeft (7 / 10) 1
   \<and> multi_level_turning id 100 10 40 = TurnRight 1 1
   \<and> multi_level_turning id 100 25 40 = TurnRight 1 (7 / 10)"
proof -
  have h: "(35::real) \<le> 100" by simp
  show ?thesis
    using rounding_id h
      lateral_turns [OF rounding_id h, of 40 10] lateral_turns [OF rounding_id h, of 40 25]
      lateral_turns [OF rounding_id h, of 10 40] lateral_turns [OF rounding_id h, of 25 40]
    by simp
qed

text \<open>
  Claim C2 as stated, with the exact difference, fails where the subtraction rounds down
  to 5. Echo pulses of 408 and 118 microseconds give the single-precision readings
  \<open>3688095 / 2^19\<close> on the left and \<open>8533239 / 2^22\<close> on the right, which is below 15. Their
  exact difference is \<open>5 + 2^-22\<close>, above 5; the float subtraction yields 5, the test
  \<^verbatim>\<open>leftDist-rightDist > 5.0f\<close> fails, and the loop calls \<^verbatim>\<open>forward(1.0f, 1.0f)\<close> where the claim
  has a sharp left turn.
\<close>

theorem difference_rounds_to_threshold:
  "rounding round_near_5
   \<and> (35::real) \<le> 100
   \<and> (3688095 / 524288 - 8533239 / 4194304 :: real) > 5
   \<and> (8533239 / 4194304 :: real) < 15
   \<and> multi_level_turning round_near_5 100 (3688095 / 524288) (8533239 / 4194304) = Forward 1 1
   \<and> multi_level_turning round_near_5 100 (3688095 / 524288) (8533239 / 4194304) \<noteq> TurnLeft 1 1"
  by (simp add: rounding_round_near_5 multi_level_turning_def round_near_5_def)

text \<open>
  Claim C3. With a front reading of at least 35, a difference between left and right whose
  absolute value is 5 or less (exactly 5 included) triggers no turn: the command is
  Forward with both duty cycles 1.0. Both comparisons of the source are strict.
\<close>

theorem no_turn_within_threshold:
  assumes "rounding rnd" and "35 \<le> frontDist" and "\<bar>leftDist - rightDist\<bar> \<le> 5"
  shows "multi_level_turning rnd frontDist leftDist rightDist = Forward 1 1"
proof -
  have "leftDist - rightDist \<le> 5" and "rightDist - leftDist \<le> 5"
    using assms(3) by simp_all
  then have "\<not> rnd (leftDist - rightDist) > 5" and "\<not> rnd (rightDist - leftDist) > 5"
    by (simp_all add: rounding_le_5 [OF assms(1)])
  with assms(2) show ?thesis
    by (simp add: multi_level_turning_def)
qed

theorem no_turn_within_threshold_witness:
  "rounding id \<and> (35::real) \<le> 100 \<and> \<bar>25 - 20 :: real\<bar> \<le> 5
   \<and> multi_level_turning id 100 25 20 = Forward 1 1
   \<and> multi_level_turning id 100 20 25 = Forward 1 1
   \<and> multi_level_turning id 100 20 18 = Forward 1 1"
proof -
  have h: "(35::real) \<le> 100" by simp
  show ?thesis
    using rounding_id h
      no_turn_within_threshold [OF rounding_id h, of 25 20]
      no_turn_within_threshold [OF rounding_id h, of 20 25]
      no_turn_within_threshold [OF rounding_id h, of 20 18]
    by simp
qed

section \<open>The pulse widths the motor functions write\<close>

lemma render_widths:
  assumes "rounding rnd" and "duty_ok c"
  shows "list_all width_ok (render rnd c)"
  using assms
  by (cases c)
     (simp_all add: forward_def backward_def stop_def turnRight_def turnLeft_def width_ok_def
        period_us_def to_int_width)

text \<open>Every call that the control loop issues has its duty cycles in \<open>[0, 1]\<close>.\<close>

lemma issued_duty_ok:
  assumes "rounding rnd"
  shows "duty_ok (multi_level_turning rnd frontDist leftDist rightDist)"
  using rounding_unit [OF assms, of "9 / 10"] rounding_unit [OF assms, of "7 / 10"]
  by (simp add: multi_level_turning_def)

text \<open>
  Claim C9, as amended. For every motor function called with duty cycles in \<open>[0, 1]\<close>, and
  whatever the channels held before: once the function has run its four statements, each
  wheel's pair of channels has at most one nonzero pulse width; and every pulse width it
  writes lies between 0 and the period.
\<close>

theorem motor_functions_exclusive_on_return:
  assumes "rounding rnd" and "duty_ok c"
  shows "pair_exclusive (run_writes p (render rnd c)) \<and> list_all width_ok (render rnd c)"
proof
  show "pair_exclusive (run_writes p (render rnd c))"
    by (cases c)
       (simp_all add: forward_def backward_def stop_def turnRight_def turnLeft_def
          run_writes_def pulsewidth_us_def pair_exclusive_def)
  show "list_all width_ok (render rnd c)"
    using assms by (rule render_widths)
qed

theorem motor_functions_exclusive_on_return_witness:
  "rounding id \<and> duty_ok (TurnLeft (7 / 10) 1)
   \<and> pair_exclusive (run_writes (\<lambda>ch. 20) (render id (TurnLeft (7 / 10) 1)))
   \<and> render id (TurnLeft (7 / 10) 1) = [(aIn1, 20), (aIn2, 0), (bIn1, 0), (bIn2, 14)]"
proof -
  have d: "duty_ok (TurnLeft (7 / 10) 1)" by simp
  show ?thesis
    using rounding_id d motor_functions_exclusive_on_return [OF rounding_id d, of "\<lambda>ch. 20"]
    by (simp add: turnLeft_def to_int_def)
qed

text \<open>
  Claim C9 as stated fails between two statements of a motor function. The loop calls
  \<^verbatim>\<open>backward(0.9f, 0.9f)\<close> for the readings (10, 50, 50) and \<^verbatim>\<open>forward(1.0f, 1.0f)\<close> for the
  readings (100, 50, 50). After the former, \<open>aIn2\<close> holds 18; the first statement of the
  latter sets \<open>aIn1\<close> to 20 before the second one clears \<open>aIn2\<close>.
\<close>

theorem forward_after_backward_not_exclusive:
  "multi_level_turning id 10 50 50 = Backward (9 / 10) (9 / 10)
   \<and> multi_level_turning id 100 50 50 = Forward 1 1
   \<and> \<not> list_all pair_exclusive
        (states_during (run_writes (\<lambda>ch. 0) (render id (Backward (9 / 10) (9 / 10))))
           (render id (Forward 1 1)))"
  by (simp add: multi_level_turning_def forward_def backward_def run_writes_def
      pulsewidth_us_def pair_exclusive_def to_int_def)

section \<open>Scheduled callbacks and events: basic facts\<close>

declare run_until.simps [simp del]

lemma fire_frame:
  "timer (fire_timeout s) = timer s" "begin_us (fire_timeout s) = begin_us s"
  "end_us (fire_timeout s) = end_us s" "distance (fire_timeout s) = distance s"
  "timer (fire_ticker s) = timer s" "begin_us (fire_ticker s) = begin_us s"
  "end_us (fire_ticker s) = end_us s" "distance (fire_ticker s) = distance s"
  by (simp_all add: fire_timeout_def fire_ticker_def trigger_toggle_def background_read_def
      split: option.splits)

lemma run_until_ticker:
  assumes "ticker_due s t" and "ticker_first s \<or> \<not> timeout_due s t"
  shows "run_until s t = run_until (fire_ticker s) t"
  using assms by (subst run_until.simps) auto

lemma run_until_timeout:
  assumes "timeout_due s t" and "\<not> (ticker_due s t \<and> ticker_first s)"
  shows "run_until s t = run_until (fire_timeout s) t"
  using assms by (subst run_until.simps) auto

lemma run_until_idle:
  assumes "\<not> ticker_due s t" and "\<not> timeout_due s t"
  shows "run_until s t = s"
  using assms by (subst run_until.simps) auto

lemma run_until_cases [case_names ticker timeout idle]:
  assumes "\<And>s. ticker_due s t \<Longrightarrow> ticker_first s \<or> \<not> timeout_due s t \<Longrightarrow>
              P (fire_ticker s) \<Longrightarrow> P s"
    and "\<And>s. timeout_due s t \<Longrightarrow> \<not> (ticker_due s t \<and> ticker_first s) \<Longrightarrow>
              P (fire_timeout s) \<Longrightarrow> P s"
    and "\<And>s. \<not> ticker_due s t \<Longrightarrow> \<not> timeout_due s t \<Longrightarrow> P s"
  shows "P s"
proof -
  have "t' = t \<Longrightarrow> P s" for t'
  proof (induction s t' rule: run_until.induct)
    case (1 s t')
    note eq = \<open>t' = t\<close>
    show ?case
    proof (cases "ticker_due s t \<and> ticker_first s")
      case True
      then show ?thesis
        using assms(1) [of s] 1(1) eq by blast
    next
      case a: False
      show ?thesis
      proof (cases "timeout_due s t")
        case True
        then show ?thesis
          using assms(2) [of s] 1(2) a eq by blast
      next
        case b: False
        show ?thesis
        proof (cases "ticker_due s t")
          case True
          then show ?thesis
            using assms(1) [of s] 1(3) a b eq by blast
        next
          case False
          then show ?thesis
            using assms(3) [of s] b by blast
        qed
      qed
    qed
  qed
  then show ?thesis by simp
qed

lemma run_until_frame:
  "timer (run_until s t) = timer s \<and> begin_us (run_until s t) = begin_us s
   \<and> end_us (run_until s t) = end_us s \<and> distance (run_until s t) = distance s"
proof (induction s rule: run_until_cases [where t = t])
  case (ticker s)
  then show ?case by (simp add: run_until_ticker fire_frame)
next
  case (timeout s)
  then show ?case by (simp add: run_until_timeout fire_frame)
next
  case (idle s)
  then show ?case by (simp add: run_until_idle)
qed

lemma apply_event_frame:
  assumes "e \<noteq> Echo_rise" and "e \<noteq> Echo_fall"
  shows "timer (snd (apply_event rnd w e)) = timer (snd w)
       \<and> begin_us (snd (apply_event rnd w e)) = begin_us (snd w)
       \<and> end_us (snd (apply_event rnd w e)) = end_us (snd w)
       \<and> distance (snd (apply_event rnd w e)) = distance (snd w)"
  using assms by (cases e) (simp_all add: Sonar_start_def Sonar_stop_def run_until_frame)

lemma apply_event_clock: "fst (apply_event rnd w e) = fst w + int (waited [e])"
  by (cases e) simp_all

lemma run_events_Cons: "run_events rnd w (e # evs) = run_events rnd (apply_event rnd w e) evs"
  by (simp add: run_events_def)

lemma run_events_Nil: "run_events rnd w [] = w"
  by (simp add: run_events_def)

lemma run_events_append:
  "run_events rnd w (evs @ evs') = run_events rnd (run_events rnd w evs) evs'"
  by (simp add: run_events_def)

lemma waited_Cons: "waited (e # evs) = waited [e] + waited evs"
  by (cases e) simp_all

lemma run_events_clock: "fst (run_events rnd w evs) = fst w + int (waited evs)"
proof (induction evs arbitrary: w)
  case Nil
  show ?case by (simp add: run_events_Nil)
next
  case (Cons e evs)
  show ?case
    using Cons [of "apply_event rnd w e"] apply_event_clock [of rnd w e] waited_Cons [of e evs]
    by (simp add: run_events_Cons)
qed

lemma run_events_frame:
  assumes "Echo_rise \<notin> set evs" and "Echo_fall \<notin> set evs"
  shows "timer (snd (run_events rnd w evs)) = timer (snd w)
       \<and> begin_us (snd (run_events rnd w evs)) = begin_us (snd w)
       \<and> end_us (snd (run_events rnd w evs)) = end_us (snd w)
       \<and> distance (snd (run_events rnd w evs)) = distance (snd w)"
  using assms
proof (induction evs arbitrary: w)
  case Nil
  show ?case by (simp add: run_events_Nil)
next
  case (Cons e evs)
  then have e: "e \<noteq> Echo_rise" "e \<noteq> Echo_fall" and rest: "Echo_rise \<notin> set evs" "Echo_fall \<notin> set evs"
    by auto
  show ?case
    using Cons.IH [OF rest, of "apply_event rnd w e"] apply_event_frame [OF e, of rnd w]
    by (simp add: run_events_Cons)
qed

lemma echo_in_timer:
  "timer (echo_in s now) = \<lparr>t_running = True, t_start = now, t_time = 0\<rparr>"
  "begin_us (echo_in s now) = 0"
  by (simp_all add: echo_in_def Let_def Timer_reset_def Timer_start_def Timer_read_us_def
      slicetime_def)

lemma sint_small:
  assumes "0 \<le> n" and "n < 2147483648"
  shows "sint (word_of_int n :: 32 word) = n"
  using assms by (simp add: sint_sbintrunc' signed_take_bit_int_eq_self)

lemma echo_fall_read:
  assumes "timer s = \<lparr>t_running = True, t_start = T0, t_time = 0\<rparr>" and "begin_us s = 0"
  shows "Sonar_read rnd (echo_fall rnd s T1)
           = rnd (rnd (real_of_int (sint (word_of_int (T1 - T0) :: 32 word))) / 58)"
  using assms
  by (simp add: Sonar_read_def echo_fall_def Let_def Timer_read_us_def slicetime_def)

lemma read_tolerance:
  assumes "rounding rnd" and "0 \<le> d" and "d < 2147483648"
  shows "\<bar>rnd (rnd (real_of_int d) / 58) - real_of_int d / 58\<bar>
           \<le> real_of_int d / 58 * (3 / 16777216)"
proof (cases "d = 0")
  case True
  then show ?thesis
    by (simp add: rounding_0 [OF assms(1)])
next
  case False
  define x where "x = real_of_int d"
  define a where "a = rnd x"
  define y where "y = a / 58"
  have x: "1 \<le> x" "x \<le> 2147483648"
    using False assms(2,3) by (simp_all add: x_def)
  have "\<bar>rnd x - x\<bar> \<le> \<bar>x\<bar> / 16777216"
    using x by (intro rounding_error [OF assms(1)]) simp_all
  then have a: "\<bar>a - x\<bar> \<le> x / 16777216"
    using x by (simp add: a_def)
  have y: "1 / 116 \<le> y" "y \<le> 2 * x / 58"
    using a x unfolding y_def by linarith+
  have "\<bar>rnd y - y\<bar> \<le> \<bar>y\<bar> / 16777216"
    using x y by (intro rounding_error [OF assms(1)]) simp_all
  then have "\<bar>rnd y - x / 58\<bar> \<le> x / 58 * (3 / 16777216)"
    using a x y unfolding y_def by linarith
  then show ?thesis
    by (simp add: x_def a_def y_def)
qed

lemma no_fall_distance:
  assumes "Echo_fall \<notin> set evs"
  shows "distance (snd (run_events rnd w evs)) = distance (snd w)"
  using assms
proof (induction evs arbitrary: w)
  case Nil
  show ?case by (simp add: run_events_Nil)
next
  case (Cons e evs)
  then have e: "e \<noteq> Echo_fall" and rest: "Echo_fall \<notin> set evs"
    by auto
  have "distance (snd (apply_event rnd w e)) = distance (snd w)"
  proof (cases "e = Echo_rise")
    case True
    then show ?thesis by (simp add: echo_in_def Let_def)
  next
    case False
    with e show ?thesis by (simp add: apply_event_frame)
  qed
  then show ?case
    using Cons.IH [OF rest, of "apply_event rnd w e"] by (simp add: run_events_Cons)
qed

section \<open>Readings of a sensor\<close>

text \<open>
  Claim C4, as amended. Let the rising-edge handler run at time \<open>T0\<close> and the falling-edge
  handler at time \<open>T1\<close>, with no other edge in between (calls of \<^verbatim>\<open>start\<close> and \<^verbatim>\<open>stop\<close> and the
  scheduled callbacks may come in between), and let \<open>T1 - T0\<close> be less than \<open>2^31\<close>
  microseconds. Then \<^verbatim>\<open>read()\<close> returns \<open>(T1 - T0) / 58\<close> up to the two roundings of the
  source (the conversion of the difference to \<^verbatim>\<open>float\<close> and the division), which is within a
  relative error of \<open>3 / 2^24\<close> of the exact quotient.
\<close>

theorem echo_cycle_read:
  assumes "rounding rnd" and "Echo_rise \<notin> set evs" and "Echo_fall \<notin> set evs"
    and "T1 = T0 + int (waited evs)" and "T1 - T0 < 2147483648"
  shows "fst (run_events rnd (T0, s) (Echo_rise # evs @ [Echo_fall])) = T1
       \<and> Sonar_read rnd (snd (run_events rnd (T0, s) (Echo_rise # evs @ [Echo_fall])))
           = rnd (rnd (real_of_int (T1 - T0)) / 58)
       \<and> \<bar>Sonar_read rnd (snd (run_events rnd (T0, s) (Echo_rise # evs @ [Echo_fall])))
            - real_of_int (T1 - T0) / 58\<bar> \<le> real_of_int (T1 - T0) / 58 * (3 / 16777216)"
proof -
  define w where "w = run_events rnd (T0, echo_in s T0) evs"
  have clock: "fst w = T1"
    using run_events_clock [of rnd "(T0, echo_in s T0)" evs] assms(4) by (simp add: w_def)
  have frame: "timer (snd w) = \<lparr>t_running = True, t_start = T0, t_time = 0\<rparr>"
      "begin_us (snd w) = 0"
    using run_events_frame [OF assms(2,3), of rnd "(T0, echo_in s T0)"]
    by (simp_all add: w_def echo_in_timer)
  have run: "run_events rnd (T0, s) (Echo_rise # evs @ [Echo_fall])
      = (T1, echo_fall rnd (snd w) T1)"
    using clock by (simp add: run_events_Cons run_events_append run_events_Nil w_def)
  have d: "0 \<le> T1 - T0"
    using assms(4) by simp
  have "sint (word_of_int (T1 - T0) :: 32 word) = T1 - T0"
    using d assms(5) by (rule sint_small)
  then have rd: "Sonar_read rnd (echo_fall rnd (snd w) T1)
      = rnd (rnd (real_of_int (T1 - T0)) / 58)"
    by (simp only: echo_fall_read [OF frame])
  show ?thesis
    using rd read_tolerance [OF assms(1) d assms(5)] by (simp add: run)
qed

theorem echo_cycle_read_witness:
  "rounding id \<and> Echo_rise \<notin> set [Call_start, Elapse 5800] \<and> Echo_fall \<notin> set [Call_start, Elapse 5800]
   \<and> (5800::int) = 0 + int (waited [Call_start, Elapse 5800]) \<and> (5800::int) - 0 < 2147483648
   \<and> Sonar_read id (snd (run_events id (0, Sonar_Sonar 0)
         (Echo_rise # [Call_start, Elapse 5800] @ [Echo_fall]))) = 100"
proof -
  have a: "Echo_rise \<notin> set [Call_start, Elapse 5800]" "Echo_fall \<notin> set [Call_start, Elapse 5800]"
    by simp_all
  have b: "(5800::int) = 0 + int (waited [Call_start, Elapse 5800])"
    by simp
  have c: "(5800::int) - 0 < 2147483648"
    by simp
  show ?thesis
    using rounding_id a b c echo_cycle_read [OF rounding_id a b c, of "Sonar_Sonar 0"]
    by simp
qed

text \<open>
  Claim C4 as stated fails for a long echo pulse: the reading of the timer is an
  \<^verbatim>\<open>int32_t\<close>, so a falling edge \<open>2^31\<close> microseconds after the rising edge gives a negative
  distance.
\<close>

theorem long_echo_read:
  "Sonar_read id (snd (run_events id (0, Sonar_Sonar 0) [Echo_rise, Elapse 2147483648, Echo_fall]))
     = - (2147483648 / 58)
   \<and> Sonar_read id (snd (run_events id (0, Sonar_Sonar 0) [Echo_rise, Elapse 2147483648, Echo_fall]))
     \<noteq> (2147483648 - 0) / 58"
  by (simp add: run_events_def Sonar_read_def echo_fall_def echo_in_def Let_def Sonar_Sonar_def
      Timer_new_def Timer_read_us_def Timer_reset_def Timer_start_def slicetime_def
      run_until_idle timeout_due_def ticker_due_def)

text \<open>
  Claim C5, as amended. Before any falling edge of the echo line has been handled since
  construction, \<^verbatim>\<open>read()\<close> returns the sentinel, which is -1 through the conversion of every
  reading: the single-precision value of \<open>-1 / 58\<close>.
\<close>

theorem read_before_first_fall:
  assumes "Echo_fall \<notin> set evs"
  shows "Sonar_read rnd (snd (run_events rnd (t0, Sonar_Sonar t0) evs)) = rnd (- 1 / 58)"
  using no_fall_distance [OF assms, of rnd "(t0, Sonar_Sonar t0)"]
  by (simp add: Sonar_read_def Sonar_Sonar_def)

theorem read_before_first_fall_witness:
  "Echo_fall \<notin> set [Call_start, Elapse 20005, Echo_rise, Elapse 7]
   \<and> Sonar_read id (snd (run_events id (0, Sonar_Sonar 0)
         [Call_start, Elapse 20005, Echo_rise, Elapse 7])) = - 1 / 58"
proof -
  have a: "Echo_fall \<notin> set [Call_start, Elapse 20005, Echo_rise, Elapse 7]"
    by simp
  show ?thesis
    using a read_before_first_fall [OF a, of id 0] by simp
qed

text \<open>
  Claim C5 as stated fails: a falling edge that no rising edge precedes completes no
  rising/falling pair, and after it \<^verbatim>\<open>read()\<close> returns 0 and not the sentinel.
\<close>

theorem spurious_fall_read_zero:
  "\<not> cycle_done False [Echo_fall]
   \<and> Sonar_read id (snd (run_events id (0, Sonar_Sonar 0) [Echo_fall])) = 0
   \<and> Sonar_read id (snd (run_events id (0, Sonar_Sonar 0) [Echo_fall])) \<noteq> - 1 / 58"
  by (simp add: run_events_def Sonar_read_def echo_fall_def Let_def Sonar_Sonar_def
      Timer_new_def Timer_read_us_def slicetime_def)

text \<open>
  Claim C6, as amended. A falling edge handled while the counter is not running is not
  discarded. It leaves the trigger line, the counter, the two schedules and \<^verbatim>\<open>begin\<close> as
  they are, stores the reading of the stopped counter in \<^verbatim>\<open>end\<close> and computes the distance
  anew as \<^verbatim>\<open>end - begin\<close>. After a completed cycle these are the values already stored, so
  a further falling edge changes nothing.
\<close>

theorem stopped_fall_recomputes:
  "(\<not> t_running (timer s) \<longrightarrow>
      echo_fall rnd s now
        = s\<lparr>end_us := word_of_int (t_time (timer s)),
             distance := rnd (real_of_int (sint (word_of_int (t_time (timer s)) - begin_us s)))\<rparr>)
   \<and> echo_fall rnd (echo_fall rnd (echo_in s T0) T1) T2 = echo_fall rnd (echo_in s T0) T1"
  by (simp add: echo_fall_def echo_in_def Let_def Timer_read_us_def Timer_stop_def
      Timer_reset_def Timer_start_def slicetime_def)

theorem stopped_fall_recomputes_witness:
  "\<not> t_running (timer (Sonar_Sonar 0))
   \<and> echo_fall id (Sonar_Sonar 0) 5 = (Sonar_Sonar 0)\<lparr>end_us := 0, distance := 0\<rparr>"
proof -
  have a: "\<not> t_running (timer (Sonar_Sonar 0))"
    by (simp add: Sonar_Sonar_def Timer_new_def)
  have b: "t_time (timer (Sonar_Sonar 0)) = 0" "begin_us (Sonar_Sonar 0) = 0"
    by (simp_all add: Sonar_Sonar_def Timer_new_def)
  show ?thesis
    using a b stopped_fall_recomputes [of "Sonar_Sonar 0" id 5] by simp
qed

text \<open>
  Claim C6 as stated fails before the first cycle: the counter of a new object is not
  running, and a falling edge replaces the distance -1 by 0.
\<close>

theorem spurious_fall_overwrites_distance:
  "\<not> t_running (timer (Sonar_Sonar 0))
   \<and> distance (Sonar_Sonar 0) = - 1
   \<and> distance (echo_fall id (Sonar_Sonar 0) 5) = 0"
  by (simp add: echo_fall_def Let_def Sonar_Sonar_def Timer_new_def Timer_read_us_def
      slicetime_def)

section \<open>The trigger line\<close>

lemma timeout_due_iff: "timeout_due s t \<longleftrightarrow> (\<exists>d. timeout s = Some d \<and> d \<le> t)"
  by (simp add: timeout_due_def split: option.splits)

lemma ticker_due_iff:
  "ticker_due s t \<longleftrightarrow> (\<exists>d p. ticker s = Some (d, p) \<and> d \<le> t \<and> 0 < p)"
  by (simp add: ticker_due_def split: option.splits)

lemma mod_period: "(t - (d + 20000)) mod 20000 = (t - d) mod (20000::int)"
proof -
  have "t - (d + 20000) = (t - d) - 20000" by simp
  then show ?thesis by (simp only: minus_mod_self2)
qed

lemma mod_small: "d \<le> t \<Longrightarrow> t < d + 20000 \<Longrightarrow> (t - d) mod 20000 = t - (d::int)"
  by simp

lemma ticker_waveform:
  assumes "ticker s = Some (d, 20000)"
    and "(\<not> trigger s \<and> timeout s = None) \<or> (trigger s \<and> timeout s = Some (d - 19990))"
  shows "trigger (run_until s t)
           \<longleftrightarrow> (if t < d then trigger s \<and> t < d - 19990 else (t - d) mod 20000 < 10)"
  using assms
proof (induction s arbitrary: d rule: run_until_cases [where t = t])
  case (ticker s)
  have due: "d \<le> t"
    using ticker.prems(1) ticker.hyps(1) by (simp add: ticker_due_def)
  have lo: "\<not> trigger s \<and> timeout s = None"
  proof (rule ccontr)
    assume "\<not> (\<not> trigger s \<and> timeout s = None)"
    with ticker.prems(2) have hi: "timeout s = Some (d - 19990)"
      by blast
    then have "\<not> ticker_first s" "timeout_due s t"
      using ticker.prems(1) due by (simp_all add: ticker_first_def timeout_due_def)
    with ticker.hyps(2) show False
      by simp
  qed
  have f: "ticker (fire_ticker s) = Some (d + 20000, 20000)"
      "trigger (fire_ticker s) \<and> timeout (fire_ticker s) = Some (d + 20000 - 19990)"
    using ticker.prems(1) by (simp_all add: fire_ticker_def background_read_def)
  have ih: "trigger (run_until (fire_ticker s) t)
      \<longleftrightarrow> (if t < d + 20000 then t < d + 20000 - 19990 else (t - (d + 20000)) mod 20000 < 10)"
    using ticker.IH [OF f(1)] f(2) by simp
  have "trigger (run_until (fire_ticker s) t) \<longleftrightarrow> (t - d) mod 20000 < 10"
  proof (cases "t < d + 20000")
    case True
    then show ?thesis
      using ih mod_small [OF due True] by auto
  next
    case False
    then show ?thesis
      using ih by (simp only: mod_period if_False)
  qed
  then show ?case
    using due by (simp add: run_until_ticker [OF ticker.hyps])
next
  case (timeout s)
  have "timeout s \<noteq> None"
    using timeout.hyps(1) by (auto simp: timeout_due_iff)
  with timeout.prems(2) have hi: "trigger s" "timeout s = Some (d - 19990)"
    by auto
  have due: "d - 19990 \<le> t"
    using timeout.hyps(1) hi(2) by (simp add: timeout_due_def)
  have f: "ticker (fire_timeout s) = Some (d, 20000)"
      "\<not> trigger (fire_timeout s) \<and> timeout (fire_timeout s) = None"
    using timeout.prems(1) by (simp_all add: fire_timeout_def trigger_toggle_def)
  have "trigger (run_until (fire_timeout s) t)
      \<longleftrightarrow> (if t < d then False else (t - d) mod 20000 < 10)"
    using timeout.IH [OF f(1)] f(2) by simp
  then show ?case
    using due hi(1) by (simp add: run_until_timeout [OF timeout.hyps])
next
  case (idle s)
  have "t < d"
    using idle.prems(1) idle.hyps(1) by (simp add: ticker_due_def)
  moreover have "trigger s \<longleftrightarrow> trigger s \<and> t < d - 19990"
    using idle.prems(2) idle.hyps(2) by (auto simp: timeout_due_def)
  ultimately show ?case
    by (simp add: run_until_idle [OF idle.hyps])
qed

text \<open>
  Claim C7. Let \<^verbatim>\<open>start()\<close> be called at time \<open>t0\<close> on a sensor whose trigger line is low and
  which has no one-shot callback pending. Then, at every time \<open>t\<close>, the trigger line is
  high exactly when at least 20000 microseconds have passed since \<open>t0\<close> and \<open>t\<close> lies
  less than 10 microseconds after a multiple of 20000 microseconds since \<open>t0\<close>: the
  periodic callback runs every 20 milliseconds, each run sets the line high, and the
  one-shot callback it schedules sets the line low 10 microseconds later. The periodic
  callback itself only sets the line and arms the one-shot schedule; nothing in it waits.
\<close>

theorem start_pulse_train:
  assumes "\<not> trigger s" and "timeout s = None"
  shows "trigger (run_until (Sonar_start s t0) t)
           \<longleftrightarrow> (20000 \<le> t - t0 \<and> (t - t0) mod 20000 < 10)"
proof -
  have "trigger (run_until (Sonar_start s t0) t)
      \<longleftrightarrow> (if t < t0 + 20000 then False else (t - (t0 + 20000)) mod 20000 < 10)"
    using ticker_waveform [of "Sonar_start s t0" "t0 + 20000" t] assms
    by (simp add: Sonar_start_def)
  then show ?thesis
    by (simp only: mod_period) auto
qed


theorem start_pulse_train_witness:
  "\<not> trigger (Sonar_Sonar 0) \<and> timeout (Sonar_Sonar 0) = None
   \<and> \<not> trigger (run_until (Sonar_start (Sonar_Sonar 0) 0) 19999)
   \<and> trigger (run_until (Sonar_start (Sonar_Sonar 0) 0) 20000)
   \<and> trigger (run_until (Sonar_start (Sonar_Sonar 0) 0) 40009)
   \<and> \<not> trigger (run_until (Sonar_start (Sonar_Sonar 0) 0) 40010)"
proof -
  have a: "\<not> trigger (Sonar_Sonar 0)" and b: "timeout (Sonar_Sonar 0) = None"
    by (simp_all add: Sonar_Sonar_def)
  show ?thesis
    using a b start_pulse_train [OF a b, of 0 19999] start_pulse_train [OF a b, of 0 20000]
      start_pulse_train [OF a b, of 0 40009] start_pulse_train [OF a b, of 0 40010]
    by simp
qed

section \<open>Stopping a sensor\<close>

lemma run_until_timeout_ahead: "timeout_ahead t (run_until s t)"
proof (induction s rule: run_until_cases [where t = t])
  case (ticker s)
  then show ?case by (simp add: run_until_ticker)
next
  case (timeout s)
  then show ?case by (simp add: run_until_timeout)
next
  case (idle s)
  then show ?case
    by (simp add: run_until_idle timeout_ahead_def timeout_due_def split: option.splits)
qed

lemma run_until_no_ticker:
  assumes "ticker s = None"
  shows "ticker (run_until s t) = None"
  using assms
proof (induction s rule: run_until_cases [where t = t])
  case (ticker s)
  then show ?case by (simp add: ticker_due_def)
next
  case (timeout s)
  then show ?case
    by (simp add: run_until_timeout fire_timeout_def trigger_toggle_def)
next
  case (idle s)
  then show ?case by (simp add: run_until_idle)
qed

lemma run_until_pulse_stopped:
  assumes "ticker s = None" and "pulse_clears_by b s"
  shows "pulse_clears_by b (run_until s t)"
  using assms
proof (induction s rule: run_until_cases [where t = t])
  case (ticker s)
  then show ?case by (simp add: ticker_due_def)
next
  case (timeout s)
  have "ticker (fire_timeout s) = None" "pulse_clears_by b (fire_timeout s)"
    using timeout.prems(1)
    by (simp_all add: fire_timeout_def trigger_toggle_def pulse_clears_by_def)
  then show ?case
    using timeout.IH by (simp add: run_until_timeout [OF timeout.hyps])
next
  case (idle s)
  then show ?case by (simp add: run_until_idle)
qed

lemma run_until_pulse:
  assumes "pulse_clears_by (t + 10) s"
  shows "pulse_clears_by (t + 10) (run_until s t)"
  using assms
proof (induction s rule: run_until_cases [where t = t])
  case (ticker s)
  have "pulse_clears_by (t + 10) (fire_ticker s)"
    using ticker.hyps(1)
    by (auto simp: ticker_due_iff fire_ticker_def background_read_def pulse_clears_by_def)
  then show ?case
    using ticker.IH by (simp add: run_until_ticker [OF ticker.hyps])
next
  case (timeout s)
  have "pulse_clears_by (t + 10) (fire_timeout s)"
    by (simp add: fire_timeout_def trigger_toggle_def pulse_clears_by_def)
  then show ?case
    using timeout.IH by (simp add: run_until_timeout [OF timeout.hyps])
next
  case (idle s)
  then show ?case by (simp add: run_until_idle)
qed

lemma pulse_clears_by_mono: "pulse_clears_by b s \<Longrightarrow> b \<le> b' \<Longrightarrow> pulse_clears_by b' s"
  by (auto simp: pulse_clears_by_def split: option.splits if_splits)

lemma sched_frame:
  "trigger (Sonar_start s now) = trigger s" "timeout (Sonar_start s now) = timeout s"
  "trigger (Sonar_stop s) = trigger s" "timeout (Sonar_stop s) = timeout s"
  "trigger (echo_in s now) = trigger s" "timeout (echo_in s now) = timeout s"
  "ticker (echo_in s now) = ticker s"
  "trigger (echo_fall rnd s now) = trigger s" "timeout (echo_fall rnd s now) = timeout s"
  "ticker (echo_fall rnd s now) = ticker s"
  by (simp_all add: Sonar_start_def Sonar_stop_def echo_in_def echo_fall_def Let_def)

lemma pulse_step:
  assumes "timeout_ahead (fst w) (snd w)" and "pulse_clears_by (fst w + 10) (snd w)"
  shows "timeout_ahead (fst (apply_event rnd w e)) (snd (apply_event rnd w e))
       \<and> pulse_clears_by (fst (apply_event rnd w e) + 10) (snd (apply_event rnd w e))"
proof (cases e)
  case (Elapse n)
  have "pulse_clears_by (fst w + int n + 10) (snd w)"
    using assms(2) by (rule pulse_clears_by_mono) simp
  then show ?thesis
    using run_until_pulse [of "fst w + int n" "snd w"] Elapse
    by (simp add: run_until_timeout_ahead)
qed (use assms in \<open>simp_all add: timeout_ahead_def pulse_clears_by_def sched_frame\<close>)

lemma pulse_run:
  assumes "timeout_ahead (fst w) (snd w)" and "pulse_clears_by (fst w + 10) (snd w)"
  shows "timeout_ahead (fst (run_events rnd w evs)) (snd (run_events rnd w evs))
       \<and> pulse_clears_by (fst (run_events rnd w evs) + 10) (snd (run_events rnd w evs))"
  using assms
proof (induction evs arbitrary: w)
  case Nil
  then show ?case by (simp add: run_events_Nil)
next
  case (Cons e evs)
  show ?case
    using Cons.IH [of "apply_event rnd w e"] pulse_step [OF Cons.prems, of rnd e]
    by (simp add: run_events_Cons)
qed

lemma stopped_step:
  assumes "e \<noteq> Call_start" and "ticker (snd w) = None"
    and "timeout_ahead (fst w) (snd w)" and "pulse_clears_by b (snd w)"
  shows "ticker (snd (apply_event rnd w e)) = None
       \<and> timeout_ahead (fst (apply_event rnd w e)) (snd (apply_event rnd w e))
       \<and> pulse_clears_by b (snd (apply_event rnd w e))"
proof (cases e)
  case (Elapse n)
  then show ?thesis
    using run_until_no_ticker [OF assms(2)] run_until_pulse_stopped [OF assms(2,4)]
    by (simp add: run_until_timeout_ahead)
qed (use assms in \<open>simp_all add: timeout_ahead_def pulse_clears_by_def sched_frame Sonar_stop_def\<close>)

lemma stopped_run:
  assumes "Call_start \<notin> set evs" and "ticker (snd w) = None"
    and "timeout_ahead (fst w) (snd w)" and "pulse_clears_by b (snd w)"
  shows "ticker (snd (run_events rnd w evs)) = None
       \<and> timeout_ahead (fst (run_events rnd w evs)) (snd (run_events rnd w evs))
       \<and> pulse_clears_by b (snd (run_events rnd w evs))"
  using assms
proof (induction evs arbitrary: w)
  case Nil
  then show ?case by (simp add: run_events_Nil)
next
  case (Cons e evs)
  then have e: "e \<noteq> Call_start" and rest: "Call_start \<notin> set evs"
    by auto
  show ?case
    using Cons.IH [OF rest, of "apply_event rnd w e"] stopped_step [OF e Cons.prems(2,3,4), of rnd]
    by (simp add: run_events_Cons)
qed

text \<open>
  Claim C8. Take any sequence of events on a new sensor, then a call of \<^verbatim>\<open>stop()\<close>, then any
  further events that hold no call of \<^verbatim>\<open>start()\<close> and during which at least 10 microseconds
  pass. At the end the trigger line is low. \<^verbatim>\<open>stop()\<close> detaches the periodic schedule only:
  a one-shot callback that is pending when it is called still runs and clears the line,
  also when \<^verbatim>\<open>stop()\<close> is called while the line is high.
\<close>

theorem stop_trigger_ends_low:
  assumes "Call_start \<notin> set after" and "10 \<le> waited after"
  shows "\<not> trigger (snd (run_events rnd (t0, Sonar_Sonar t0) (before @ Call_stop # after)))"
proof -
  define w where "w = run_events rnd (t0, Sonar_Sonar t0) before"
  define w' where "w' = apply_event rnd w Call_stop"
  define w'' where "w'' = run_events rnd w' after"
  have init: "timeout_ahead (fst (t0, Sonar_Sonar t0)) (snd (t0, Sonar_Sonar t0))"
      "pulse_clears_by (fst (t0, Sonar_Sonar t0) + 10) (snd (t0, Sonar_Sonar t0))"
    by (simp_all add: timeout_ahead_def pulse_clears_by_def Sonar_Sonar_def)
  have inv: "timeout_ahead (fst w) (snd w)" "pulse_clears_by (fst w + 10) (snd w)"
    using pulse_run [OF init, of rnd before] by (simp_all add: w_def)
  have stopped: "ticker (snd w') = None" "timeout_ahead (fst w') (snd w')"
      "pulse_clears_by (fst w + 10) (snd w')" "fst w' = fst w"
    using inv
    by (simp_all add: w'_def Sonar_stop_def timeout_ahead_def pulse_clears_by_def)
  have fin: "timeout_ahead (fst w'') (snd w'')" "pulse_clears_by (fst w + 10) (snd w'')"
    using stopped_run [OF assms(1) stopped(1,2,3), of rnd] by (simp_all add: w''_def)
  have "fst w + 10 \<le> fst w''"
    using run_events_clock [of rnd w' after] assms(2) stopped(4) by (simp add: w''_def)
  with fin have "\<not> trigger (snd w'')"
    by (auto simp: timeout_ahead_def pulse_clears_by_def split: option.splits if_splits)
  moreover have "run_events rnd (t0, Sonar_Sonar t0) (before @ Call_stop # after) = w''"
    by (simp add: run_events_append run_events_Cons w_def w'_def w''_def)
  ultimately show ?thesis by simp
qed


theorem stop_trigger_ends_low_witness:
  "Call_start \<notin> set [Elapse 4, Echo_rise, Elapse 6] \<and> 10 \<le> waited [Elapse 4, Echo_rise, Elapse 6]
   \<and> trigger (snd (run_events id (0, Sonar_Sonar 0) [Call_start, Elapse 20005, Call_stop]))
   \<and> \<not> trigger (snd (run_events id (0, Sonar_Sonar 0)
          ([Call_start, Elapse 20005] @ Call_stop # [Elapse 4, Echo_rise, Elapse 6])))"
proof -
  have a: "Call_start \<notin> set [Elapse 4, Echo_rise, Elapse 6]"
    and b: "10 \<le> waited [Elapse 4, Echo_rise, Elapse 6]"
    by simp_all
  have "trigger (run_until (Sonar_start (Sonar_Sonar 0) 0) 20005)"
    using ticker_waveform [of "Sonar_start (Sonar_Sonar 0) 0" 20000 20005]
    by (simp add: Sonar_start_def Sonar_Sonar_def)
  then have c: "trigger (snd (run_events id (0, Sonar_Sonar 0) [Call_start, Elapse 20005, Call_stop]))"
    by (simp add: run_events_def sched_frame)
  show ?thesis
    using a b c stop_trigger_ends_low [OF a b, of id 0 "[Call_start, Elapse 20005]"]
    by simp
qed

section \<open>The control loop at startup\<close>

lemma no_cycle_after_rise:
  assumes "\<not> cycle_done True evs"
  shows "Echo_fall \<notin> set evs"
  using assms
proof (induction evs)
  case Nil
  show ?case by simp
next
  case (Cons e evs)
  then show ?case by (cases e) simp_all
qed

lemma never_risen_step:
  assumes "rounding rnd" and "never_risen (snd w)" and "e \<noteq> Echo_rise"
  shows "never_risen (snd (apply_event rnd w e))"
proof (cases "e = Echo_fall")
  case True
  then show ?thesis
    using assms(2) rounding_0 [OF assms(1)]
    by (simp add: never_risen_def echo_fall_def Let_def Timer_read_us_def Timer_stop_def
        slicetime_def)
next
  case False
  then show ?thesis
    using assms(2,3) apply_event_frame [OF assms(3) False, of rnd w]
    by (simp add: never_risen_def)
qed

lemma no_cycle_distance:
  assumes "rounding rnd" and "never_risen (snd w)" and "\<not> cycle_done False evs"
  shows "distance (snd (run_events rnd w evs)) = - 1 \<or> distance (snd (run_events rnd w evs)) = 0"
  using assms(2,3)
proof (induction evs arbitrary: w)
  case Nil
  then show ?case by (simp add: run_events_Nil never_risen_def)
next
  case (Cons e evs)
  show ?case
  proof (cases "e = Echo_rise")
    case True
    with Cons.prems(2) have "Echo_fall \<notin> set evs"
      by (simp add: no_cycle_after_rise)
    then have "distance (snd (run_events rnd (apply_event rnd w e) evs))
        = distance (snd (apply_event rnd w e))"
      by (rule no_fall_distance)
    also have "\<dots> = distance (snd w)"
      using True by (simp add: echo_in_def Let_def)
    finally show ?thesis
      using Cons.prems(1) by (simp add: run_events_Cons never_risen_def)
  next
    case False
    have "\<not> cycle_done False evs"
      using Cons.prems(2) False by (cases e) simp_all
    then show ?thesis
      using Cons.IH [OF never_risen_step [OF assms(1) Cons.prems(1) False]]
      by (simp add: run_events_Cons)
  qed
qed

lemma sentinel_read:
  assumes "rounding rnd"
  shows "rnd (- 1 / 58) < 0" and "\<bar>rnd (- 1 / 58) + 1 / 58\<bar> \<le> 1 / 58 / 16777216"
proof -
  have "\<bar>rnd (- 1 / 58) - (- 1 / 58)\<bar> \<le> \<bar>- 1 / 58 :: real\<bar> / 16777216"
    by (intro rounding_error [OF assms]) simp_all
  then show "\<bar>rnd (- 1 / 58) + 1 / 58\<bar> \<le> 1 / 58 / 16777216"
    by simp
  then show "rnd (- 1 / 58) < 0"
    by linarith
qed

text \<open>
  Claim C10, as amended. Let the front sensor be in the state that any sequence of events
  leads to from its construction. As long as no falling edge has been handled, \<^verbatim>\<open>read()\<close>
  returns the single-precision value of \<open>-1 / 58\<close>, a negative number within a relative
  error of \<open>2^-24\<close> of it. As long as no measurement cycle has completed, the reading is
  below 35 and the control loop calls \<^verbatim>\<open>backward(0.9f, 0.9f)\<close>, whatever the other two sensors
  read: the decision takes the sentinel for a distance.
\<close>

theorem startup_backward:
  assumes "rounding rnd" and "sonarFront = snd (run_events rnd (t0, Sonar_Sonar t0) evs)"
  shows "(Echo_fall \<notin> set evs \<longrightarrow>
            Sonar_read rnd sonarFront = rnd (- 1 / 58) \<and> Sonar_read rnd sonarFront < 0
            \<and> \<bar>Sonar_read rnd sonarFront + 1 / 58\<bar> \<le> 1 / 58 / 16777216)
       \<and> (\<not> cycle_done False evs \<longrightarrow>
            main_loop rnd sonarFront sonarLeft sonarRight
              = Backward (rnd (9 / 10)) (rnd (9 / 10)))"
proof (intro conjI impI)
  assume "Echo_fall \<notin> set evs"
  then have "distance sonarFront = - 1"
    using no_fall_distance [of evs rnd "(t0, Sonar_Sonar t0)"] assms(2)
    by (simp add: Sonar_Sonar_def)
  then have r: "Sonar_read rnd sonarFront = rnd (- 1 / 58)"
    by (simp add: Sonar_read_def)
  show "Sonar_read rnd sonarFront = rnd (- 1 / 58)"
    by (rule r)
  show "Sonar_read rnd sonarFront < 0"
    using sentinel_read(1) [OF assms(1)] by (simp only: r)
  show "\<bar>Sonar_read rnd sonarFront + 1 / 58\<bar> \<le> 1 / 58 / 16777216"
    using sentinel_read(2) [OF assms(1)] by (simp only: r)
next
  assume "\<not> cycle_done False evs"
  moreover have "never_risen (snd (t0, Sonar_Sonar t0))"
    by (simp add: never_risen_def Sonar_Sonar_def Timer_new_def)
  ultimately have "distance sonarFront = - 1 \<or> distance sonarFront = 0"
    using no_cycle_distance [OF assms(1), of "(t0, Sonar_Sonar t0)" evs] assms(2) by simp
  then have "Sonar_read rnd sonarFront < 35"
    using sentinel_read(1) [OF assms(1)] rounding_0 [OF assms(1)]
    by (auto simp: Sonar_read_def)
  then show "main_loop rnd sonarFront sonarLeft sonarRight
      = Backward (rnd (9 / 10)) (rnd (9 / 10))"
    by (simp add: main_loop_def multi_level_turning_def)
qed

theorem startup_backward_witness:
  "rounding id
   \<and> Echo_fall \<notin> set [Call_start, Elapse 66000, Echo_rise]
   \<and> \<not> cycle_done False [Call_start, Elapse 66000, Echo_rise]
   \<and> Sonar_read id (snd (run_events id (0, Sonar_Sonar 0) [Call_start, Elapse 66000, Echo_rise]))
       = - 1 / 58
   \<and> main_loop id (snd (run_events id (0, Sonar_Sonar 0) [Call_start, Elapse 66000, Echo_rise]))
        (Sonar_Sonar 0) (Sonar_Sonar 0) = Backward (9 / 10) (9 / 10)"
proof -
  have a: "Echo_fall \<notin> set [Call_start, Elapse 66000, Echo_rise]"
    and b: "\<not> cycle_done False [Call_start, Elapse 66000, Echo_rise]"
    by simp_all
  show ?thesis
    using rounding_id a b
      startup_backward [OF rounding_id refl, of "[Call_start, Elapse 66000, Echo_rise]" 0
        "Sonar_Sonar 0" "Sonar_Sonar 0"]
    by simp
qed

text \<open>
  Claim C10 as stated fails in its first part: after a falling edge that no rising edge
  precedes, no echo cycle has completed, and \<^verbatim>\<open>read()\<close> returns 0, which is not negative.
\<close>

theorem fall_before_rise_reads_zero:
  "\<not> cycle_done False [Echo_fall, Echo_rise]
   \<and> Sonar_read id (snd (run_events id (0, Sonar_Sonar 0) [Echo_fall, Echo_rise])) = 0
   \<and> \<not> Sonar_read id (snd (run_events id (0, Sonar_Sonar 0) [Echo_fall, Echo_rise])) < 0"
  by (simp add: run_events_def Sonar_read_def echo_fall_def echo_in_def Let_def Sonar_Sonar_def
      Timer_new_def Timer_read_us_def slicetime_def)

end
